theory Spec2Isabelle
  imports Complex_Main
begin

section \<open>The offboard figure-8 mission node (src/offboard_node.cpp)\<close>

text \<open>
  The node is one C++ \<^verbatim>\<open>main\<close> with two telemetry callbacks. The embedding keeps
  its shape: the globals and the locals of \<^verbatim>\<open>main\<close> that live across iterations are
  the fields of a state record, one iteration of the control loop is a function from
  a state and the iteration's inputs to the next state and the list of calls it made
  on the outside world, and the loop is the recursion over the list of per-iteration
  inputs (the list ends when \<^verbatim>\<open>ros::ok()\<close> turns false).

  Idealisations, stated once: a C++ \<^verbatim>\<open>double\<close> is a \<^typ>\<open>real\<close> (so \<^verbatim>\<open>M_PI\<close> is
  \<^term>\<open>pi\<close> and \<^verbatim>\<open>std::sin\<close>, \<^verbatim>\<open>std::cos\<close> are \<^term>\<open>sin\<close>, \<^term>\<open>cos\<close>), and
  a \<^verbatim>\<open>ros::Time\<close> is a \<^typ>\<open>real\<close> number of seconds, a \<^verbatim>\<open>ros::Duration\<close> the
  difference of two of them.
\<close>

subsection \<open>Constants (the \<^verbatim>\<open>#define\<close>s, lines 10-21)\<close>

definition RATE :: real where
  "RATE = 20.0"

definition TAKEOFF_Z :: real where
  "TAKEOFF_Z = 6.0"

definition RADIUS :: real where
  "RADIUS = 15.0"

definition ANGULAR_SPEED :: real where
  "ANGULAR_SPEED = 0.3"

definition PHASE_TAKEOFF :: int where
  "PHASE_TAKEOFF = 1"

definition PHASE_FIGURE8 :: int where
  "PHASE_FIGURE8 = 2"

definition PHASE_LAND :: int where
  "PHASE_LAND = 3"

definition PHASE_COMPLETE :: int where
  "PHASE_COMPLETE = 4"

subsection \<open>Data\<close>

text \<open>The fields of \<^verbatim>\<open>mavros_msgs::State\<close> that the node reads.\<close>

record vehicle_state =
  connected :: bool
  armed :: bool
  mode :: string

text \<open>The position of a \<^verbatim>\<open>geometry_msgs::PoseStamped\<close> (\<^verbatim>\<open>pose.pose.position\<close>).\<close>

record position =
  pos_x :: real
  pos_y :: real
  pos_z :: real

text \<open>
  The globals of lines 24-28 and the two locals of \<^verbatim>\<open>main\<close> that outlive an
  iteration (\<^verbatim>\<open>pose\<close>, line 61, and \<^verbatim>\<open>last_request\<close>, line 77).
\<close>

record node_state =
  current_state :: vehicle_state
  current_local_pose :: position
  mission_start_time :: real
  phase_start_time :: real
  current_phase :: int
  pose :: position
  last_request :: real

text \<open>What the node does to the outside: a service call or a published setpoint.\<close>

datatype event =
  SetModeCall string
  | ArmingCall bool
  | Publish position

text \<open>
  What one iteration receives from the outside. Every textual occurrence of
  \<^verbatim>\<open>ros::Time::now()\<close> in the loop body is a reading of its own, named by its
  source line; a service call returns the result of \<^verbatim>\<open>call\<close> and the response's flag
  (for the arming and the \<^verbatim>\<open>AUTO.LAND\<close> call the code only logs them);
  \<^verbatim>\<open>ros::spinOnce()\<close> delivers the queued telemetry messages in order.
\<close>

record iter_input =
  now_88 :: real
  now_91 :: real
  now_93 :: real
  now_95 :: real
  now_99 :: real
  now_106 :: real
  now_119 :: real
  offboard_call :: bool
  offboard_mode_sent :: bool
  arming_call :: bool
  arming_success :: bool
  land_call :: bool
  land_mode_sent :: bool
  state_msgs :: "vehicle_state list"
  pose_msgs :: "position list"

subsection \<open>Callbacks and \<^verbatim>\<open>spinOnce\<close> (lines 32-38)\<close>

definition state_cb :: "vehicle_state \<Rightarrow> node_state \<Rightarrow> node_state" where
  "state_cb msg s = s\<lparr>current_state := msg\<rparr>"

definition local_pos_cb :: "position \<Rightarrow> node_state \<Rightarrow> node_state" where
  "local_pos_cb msg s = s\<lparr>current_local_pose := msg\<rparr>"

definition spinOnce :: "node_state \<Rightarrow> iter_input \<Rightarrow> node_state" where
  "spinOnce s i = fold local_pos_cb (pose_msgs i) (fold state_cb (state_msgs i) s)"

subsection \<open>The loop body (lines 86-177)\<close>

text \<open>Lines 88-101: request OFFBOARD, else request arming, each behind the 5 s gate.\<close>

definition command_arbitration :: "node_state \<Rightarrow> iter_input \<Rightarrow> node_state \<times> event list" where
  "command_arbitration s i =
     (if mode (current_state s) \<noteq> ''OFFBOARD'' \<and> now_88 i - last_request s > 5.0 then
        (let s1 = (if offboard_call i \<and> offboard_mode_sent i
                   then s\<lparr>phase_start_time := now_91 i\<rparr> else s)
         in (s1\<lparr>last_request := now_93 i\<rparr>, [SetModeCall ''OFFBOARD'']))
      else if \<not> armed (current_state s) \<and> now_95 i - last_request s > 5.0 then
        (s\<lparr>last_request := now_99 i\<rparr>, [ArmingCall True])
      else (s, []))"

text \<open>Line 82.\<close>

definition required_figure8_duration :: real where
  "required_figure8_duration = (2.0 * pi) / ANGULAR_SPEED"

text \<open>
  Lines 128-137: the target of the Figure8 phase at phase time \<open>t\<close>. The code
  computes the angle, \<^verbatim>\<open>std::sin\<close>, \<^verbatim>\<open>std::cos\<close> and the products in IEEE doubles;
  this is the curve over the reals, which the doubles follow up to rounding. What is
  proved of it below is therefore meant up to that rounding: equalities with the
  closed form within a tolerance, and no bound that a rounding error of a few units
  in the last place could break.
\<close>

definition figure8_target :: "real \<Rightarrow> position \<Rightarrow> position" where
  "figure8_target figure8_time p =
     (let angle = ANGULAR_SPEED * figure8_time
      in p\<lparr>pos_x := RADIUS * sin angle,
            pos_y := RADIUS * sin angle * cos angle,
            pos_z := TAKEOFF_Z\<rparr>)"

text \<open>Lines 104-167: the phase machine, run only when armed and in OFFBOARD.\<close>

definition mission_phase :: "node_state \<Rightarrow> iter_input \<Rightarrow> node_state \<times> event list" where
  "mission_phase s i =
     (if armed (current_state s) \<and> mode (current_state s) = ''OFFBOARD'' then
        (let time_in_phase = now_106 i - phase_start_time s in
         if current_phase s = PHASE_TAKEOFF then
           (let s1 = s\<lparr>pose := (pose s)\<lparr>pos_x := 0.0, pos_y := 0.0, pos_z := TAKEOFF_Z\<rparr>\<rparr>
            in if time_in_phase \<ge> 15.0
               then (s1\<lparr>current_phase := PHASE_FIGURE8, phase_start_time := now_119 i\<rparr>, [])
               else (s1, []))
         else if current_phase s = PHASE_FIGURE8 then
           (let figure8_time = time_in_phase;
                s1 = s\<lparr>pose := figure8_target figure8_time (pose s)\<rparr>
            in if figure8_time \<ge> required_figure8_duration
               then (s1\<lparr>current_phase := PHASE_LAND,
                         pose := (pose s1)\<lparr>pos_x := 0.0, pos_y := 0.0\<rparr>\<rparr>, [])
               else (s1, []))
         else if current_phase s = PHASE_LAND then
           (s\<lparr>current_phase := PHASE_COMPLETE\<rparr>, [SetModeCall ''AUTO.LAND''])
         else (s, []))
      else (s, []))"

text \<open>Lines 170-173.\<close>

definition publish_setpoint :: "node_state \<Rightarrow> event list" where
  "publish_setpoint s = (if current_phase s < PHASE_LAND then [Publish (pose s)] else [])"

text \<open>One iteration: arbitration, phase machine, publication, \<^verbatim>\<open>spinOnce\<close>.\<close>

definition iteration :: "node_state \<Rightarrow> iter_input \<Rightarrow> node_state \<times> event list" where
  "iteration s i =
     (let (s1, e1) = command_arbitration s i;
          (s2, e2) = mission_phase s1 i;
          e3 = publish_setpoint s2
      in (spinOnce s2 i, e1 @ e2 @ e3))"

text \<open>
  The loop of line 86 over the inputs of its iterations; the result is the state at
  exit and, per iteration, the calls made.
\<close>

fun main_loop :: "node_state \<Rightarrow> iter_input list \<Rightarrow> node_state \<times> event list list" where
  "main_loop s [] = (s, [])"
| "main_loop s (i # is) =
     (let (s', ev) = iteration s i;
          (sf, evs) = main_loop s' is
      in (sf, ev # evs))"

subsection \<open>Before the loop (lines 55-79)\<close>

text \<open>
  Lines 55-58. An element of the list is one turn in which \<^verbatim>\<open>ros::ok()\<close> holds; the
  loop leaves the turn it stops at to the code that follows.
\<close>

fun wait_connected :: "node_state \<Rightarrow> iter_input list \<Rightarrow> node_state \<times> iter_input list" where
  "wait_connected s [] = (s, [])"
| "wait_connected s (i # is) =
     (if \<not> connected (current_state s) then wait_connected (spinOnce s i) is
      else (s, i # is))"

text \<open>Lines 67-71: the burst of setpoints before any command, \<open>n\<close> turns left.\<close>

fun warm_up :: "nat \<Rightarrow> node_state \<Rightarrow> iter_input list \<Rightarrow> (node_state \<times> event list list) \<times> iter_input list" where
  "warm_up 0 s is = ((s, []), is)"
| "warm_up (Suc n) s [] = ((s, []), [])"
| "warm_up (Suc n) s (i # is) =
     (let ((sf, evs), rest) = warm_up n (spinOnce s i) is
      in ((sf, [Publish (pose s)] # evs), rest))"

text \<open>
  Lines 61-64 and 77-79: the state with which the loop of line 86 is entered, from
  the state the warm-up left and the three clock readings.
\<close>

definition loop_entry :: "node_state \<Rightarrow> real \<Rightarrow> real \<Rightarrow> real \<Rightarrow> node_state" where
  "loop_entry s now_77 now_78 now_79 =
     s\<lparr>last_request := now_77, mission_start_time := now_78, phase_start_time := now_79\<rparr>"

text \<open>
  Lines 24-28: the globals as C++ initialises them (default-constructed messages and
  times, the phase at \<^verbatim>\<open>PHASE_TAKEOFF\<close>), with the pose of lines 61-64.
\<close>

definition initial_state :: node_state where
  "initial_state =
     \<lparr>current_state = \<lparr>connected = False, armed = False, mode = ''''\<rparr>,
      current_local_pose = \<lparr>pos_x = 0, pos_y = 0, pos_z = 0\<rparr>,
      mission_start_time = 0, phase_start_time = 0, current_phase = PHASE_TAKEOFF,
      pose = \<lparr>pos_x = 0, pos_y = 0, pos_z = TAKEOFF_Z\<rparr>, last_request = 0\<rparr>"

text \<open>
  Everything before line 86: the state the control loop starts in, the setpoints of
  the warm-up, and the turns left for the control loop.
\<close>

definition pre_loop :: "real \<Rightarrow> real \<Rightarrow> real \<Rightarrow> iter_input list
    \<Rightarrow> node_state \<times> event list list \<times> iter_input list" where
  "pre_loop now_77 now_78 now_79 env =
     (let (s1, env1) = wait_connected initial_state env;
          ((s2, evs2), env2) = warm_up 100 s1 env1
      in (loop_entry s2 now_77 now_78 now_79, evs2, env2))"

definition main :: "real \<Rightarrow> real \<Rightarrow> real \<Rightarrow> iter_input list \<Rightarrow> node_state \<times> event list list" where
  "main now_77 now_78 now_79 env =
     (let (s2, evs2, env2) = pre_loop now_77 now_78 now_79 env;
          (s3, evs3) = main_loop s2 env2
      in (s3, evs2 @ evs3))"

subsection \<open>Observations on runs\<close>

text \<open>The setpoints among the calls of an iteration.\<close>

definition setpoints :: "event list \<Rightarrow> position list" where
  "setpoints ev = concat (map (\<lambda>e. case e of Publish p \<Rightarrow> [p] | _ \<Rightarrow> []) ev)"

text \<open>The service calls (every call that is not a publication).\<close>

definition service_calls :: "event list \<Rightarrow> event list" where
  "service_calls ev = filter (\<lambda>e. case e of Publish p \<Rightarrow> False | _ \<Rightarrow> True) ev"

text \<open>The two throttled requests of lines 88-101: OFFBOARD mode and arming.\<close>

definition command_requests :: "event list \<Rightarrow> event list" where
  "command_requests ev =
     filter (\<lambda>e. case e of SetModeCall m \<Rightarrow> m = ''OFFBOARD'' | ArmingCall b \<Rightarrow> True
                  | Publish p \<Rightarrow> False) ev"

text \<open>The phase before the first iteration and after each one.\<close>

fun phase_trace :: "node_state \<Rightarrow> iter_input list \<Rightarrow> int list" where
  "phase_trace s [] = [current_phase s]"
| "phase_trace s (i # is) = current_phase s # phase_trace (fst (iteration s i)) is"

text \<open>Each phase of the list is its predecessor or the one after it.\<close>

fun stepwise :: "int list \<Rightarrow> bool" where
  "stepwise (p # q # r) = ((q = p \<or> q = p + 1) \<and> stepwise (q # r))"
| "stepwise r = True"

text \<open>
  The clock reading that let a throttled request through: the one of line 88 for the
  mode request, the one of line 95 for the arming request.
\<close>

definition gate_reading :: "event list \<Rightarrow> iter_input \<Rightarrow> real" where
  "gate_reading ev i = (if SetModeCall ''OFFBOARD'' \<in> set ev then now_88 i else now_95 i)"

text \<open>
  The throttled requests of a run, in order: for each, the reading that let it
  through and the reading stored in \<^verbatim>\<open>last_request\<close> after the call returned.
\<close>

fun attempts :: "node_state \<Rightarrow> iter_input list \<Rightarrow> (real \<times> real) list" where
  "attempts s [] = []"
| "attempts s (i # is) =
     (let (s', ev) = iteration s i
      in (if command_requests ev = [] then []
          else [(gate_reading ev i, last_request s')]) @ attempts s' is)"

text \<open>
  Every request passes its gate more than 5 s after the reading stored by the one
  before it (\<open>t\<close> for the first).
\<close>

fun spaced :: "real \<Rightarrow> (real \<times> real) list \<Rightarrow> bool" where
  "spaced t [] = True"
| "spaced t ((g, r) # xs) = (g - t > 5 \<and> spaced r xs)"

text \<open>Successive readings in the list are more than 5 s apart.\<close>

fun gates_apart :: "real list \<Rightarrow> bool" where
  "gates_apart (g # h # r) = (h - g > 5 \<and> gates_apart (h # r))"
| "gates_apart r = True"

text \<open>The clock does not run backwards between the readings of one iteration.\<close>

definition clock_mono :: "iter_input \<Rightarrow> bool" where
  "clock_mono i =
     (now_88 i \<le> now_91 i \<and> now_91 i \<le> now_93 i \<and> now_88 i \<le> now_95 i \<and>
      now_95 i \<le> now_99 i \<and> now_93 i \<le> now_106 i \<and> now_99 i \<le> now_106 i \<and>
      now_106 i \<le> now_119 i)"

text \<open>Two telemetry messages, states and inputs that differ at most in \<open>connected\<close>.\<close>

definition same_but_connected :: "vehicle_state \<Rightarrow> vehicle_state \<Rightarrow> bool" where
  "same_but_connected a b = (b = a\<lparr>connected := connected b\<rparr>)"

definition state_sim :: "node_state \<Rightarrow> node_state \<Rightarrow> bool" where
  "state_sim s t =
     (same_but_connected (current_state s) (current_state t) \<and>
      t = s\<lparr>current_state := current_state t\<rparr>)"

definition input_sim :: "iter_input \<Rightarrow> iter_input \<Rightarrow> bool" where
  "input_sim i j =
     (list_all2 same_but_connected (state_msgs i) (state_msgs j) \<and>
      j = i\<lparr>state_msgs := state_msgs j\<rparr>)"

subsection \<open>Concrete inputs\<close>

text \<open>
  A turn at clock time \<open>t\<close> (every reading is \<open>t\<close>) in which every service call
  succeeds and \<^verbatim>\<open>spinOnce\<close> delivers the state messages \<open>ms\<close>.
\<close>

definition turn :: "real \<Rightarrow> vehicle_state list \<Rightarrow> iter_input" where
  "turn t ms =
     \<lparr>now_88 = t, now_91 = t, now_93 = t, now_95 = t, now_99 = t, now_106 = t,
      now_119 = t, offboard_call = True, offboard_mode_sent = True, arming_call = True,
      arming_success = True, land_call = True, land_mode_sent = True,
      state_msgs = ms, pose_msgs = []\<rparr>"

text \<open>The vehicle armed and in OFFBOARD, with the given \<open>connected\<close> flag.\<close>

definition flying :: "bool \<Rightarrow> vehicle_state" where
  "flying c = \<lparr>connected = c, armed = True, mode = ''OFFBOARD''\<rparr>"

text \<open>The vehicle in OFFBOARD but not armed.\<close>

definition standby :: "bool \<Rightarrow> vehicle_state" where
  "standby c = \<lparr>connected = c, armed = False, mode = ''OFFBOARD''\<rparr>"

text \<open>
  A state of the control loop in phase \<open>p\<close>, entered at time \<open>t0\<close>, with the target at
  the take-off point.
\<close>

definition in_phase :: "int \<Rightarrow> real \<Rightarrow> vehicle_state \<Rightarrow> node_state" where
  "in_phase p t0 cs =
     initial_state\<lparr>current_state := cs, current_phase := p, phase_start_time := t0\<rparr>"

text \<open>
  The turns before the control loop: one that delivers the first state message
  (connected, armed, OFFBOARD), then the 100 turns of the warm-up.
\<close>

definition startup :: "iter_input list" where
  "startup = turn 0 [flying True] # replicate 100 (turn 0 [])"

section \<open>Properties\<close>

subsection \<open>Basic facts about one iteration\<close>

lemmas phase_defs = PHASE_TAKEOFF_def PHASE_FIGURE8_def PHASE_LAND_def PHASE_COMPLETE_def

text \<open>The concrete inputs, field by field.\<close>

lemma in_phase_simps:
  "current_state (in_phase p t0 cs) = cs"
  "current_phase (in_phase p t0 cs) = p"
  "pose (in_phase p t0 cs) = \<lparr>pos_x = 0, pos_y = 0, pos_z = TAKEOFF_Z\<rparr>"
  "phase_start_time (in_phase p t0 cs) = t0"
  "last_request (in_phase p t0 cs) = 0"
  by (simp_all add: in_phase_def initial_state_def)

lemma flying_simps:
  "armed (flying c)" "mode (flying c) = ''OFFBOARD''" "connected (flying c) = c"
  by (simp_all add: flying_def)

lemma turn_simps:
  "now_88 (turn t ms) = t" "now_91 (turn t ms) = t" "now_93 (turn t ms) = t"
  "now_95 (turn t ms) = t" "now_99 (turn t ms) = t" "now_106 (turn t ms) = t"
  "now_119 (turn t ms) = t" "state_msgs (turn t ms) = ms" "pose_msgs (turn t ms) = []"
  "offboard_call (turn t ms)" "offboard_mode_sent (turn t ms)"
  by (simp_all add: turn_def)

lemma fold_state_cb:
  "fold state_cb ms s = s\<lparr>current_state := last (current_state s # ms)\<rparr>"
  by (induction ms arbitrary: s) (simp_all add: state_cb_def)

lemma fold_local_pos_cb:
  "fold local_pos_cb ms s = s\<lparr>current_local_pose := last (current_local_pose s # ms)\<rparr>"
  by (induction ms arbitrary: s) (simp_all add: local_pos_cb_def)

lemma spinOnce_eq:
  "spinOnce s i = s\<lparr>current_state := last (current_state s # state_msgs i),
                     current_local_pose := last (current_local_pose s # pose_msgs i)\<rparr>"
  by (simp add: spinOnce_def fold_state_cb fold_local_pos_cb)

lemma arbitration_frame:
  "current_state (fst (command_arbitration s i)) = current_state s"
  "current_phase (fst (command_arbitration s i)) = current_phase s"
  "pose (fst (command_arbitration s i)) = pose s"
  by (simp_all add: command_arbitration_def Let_def)

lemma arbitration_quiet:
  "armed (current_state s) \<Longrightarrow> mode (current_state s) = ''OFFBOARD'' \<Longrightarrow>
   command_arbitration s i = (s, [])"
  by (simp add: command_arbitration_def)

lemma iteration_eq:
  "iteration s i =
     (spinOnce (fst (mission_phase (fst (command_arbitration s i)) i)) i,
      snd (command_arbitration s i) @ snd (mission_phase (fst (command_arbitration s i)) i)
        @ publish_setpoint (fst (mission_phase (fst (command_arbitration s i)) i)))"
  by (simp add: iteration_def Let_def split: prod.splits)

lemma mission_phase_idle:
  "\<not> (armed (current_state s) \<and> mode (current_state s) = ''OFFBOARD'') \<Longrightarrow>
   mission_phase s i = (s, [])"
  by (auto simp: mission_phase_def)

lemma mission_phase_events:
  "snd (mission_phase s i) =
     (if armed (current_state s) \<and> mode (current_state s) = ''OFFBOARD'' \<and>
         current_phase s = PHASE_LAND
      then [SetModeCall ''AUTO.LAND''] else [])"
  by (simp add: mission_phase_def Let_def phase_defs)

lemma main_loop_Cons:
  "main_loop s (i # is) =
     (fst (main_loop (fst (iteration s i)) is),
      snd (iteration s i) # snd (main_loop (fst (iteration s i)) is))"
  by (simp add: Let_def split: prod.splits)

declare main_loop.simps(2) [simp del]

lemma iteration_phase_step:
  "current_phase (fst (iteration s i)) = current_phase s \<or>
   (current_phase (fst (iteration s i)) = current_phase s + 1 \<and>
    PHASE_TAKEOFF \<le> current_phase s \<and> current_phase s < PHASE_COMPLETE)"
  by (simp add: iteration_eq spinOnce_eq mission_phase_def Let_def arbitration_frame phase_defs)

lemma iteration_phase_mono: "current_phase s \<le> current_phase (fst (iteration s i))"
  using iteration_phase_step [of s i] by auto

subsection \<open>Publication\<close>

lemma setpoints_simps:
  "setpoints [] = []"
  "setpoints (Publish p # ev) = p # setpoints ev"
  "setpoints (SetModeCall m # ev) = setpoints ev"
  "setpoints (ArmingCall b # ev) = setpoints ev"
  "setpoints (ev @ ev') = setpoints ev @ setpoints ev'"
  by (simp_all add: setpoints_def)

lemma setpoints_arbitration: "setpoints (snd (command_arbitration s i)) = []"
  by (simp add: command_arbitration_def Let_def setpoints_simps)

lemma setpoints_mission_phase: "setpoints (snd (mission_phase s i)) = []"
  by (simp add: mission_phase_def Let_def setpoints_simps)

lemma iteration_setpoints:
  "setpoints (snd (iteration s i)) =
     (if current_phase (fst (iteration s i)) < PHASE_LAND then [pose (fst (iteration s i))]
      else [])"
  by (simp add: iteration_eq setpoints_simps setpoints_arbitration setpoints_mission_phase
      publish_setpoint_def spinOnce_eq)

lemma landed_never_publishes:
  "PHASE_LAND \<le> current_phase s \<Longrightarrow> concat (map setpoints (snd (main_loop s ins))) = []"
proof (induction ins arbitrary: s)
  case Nil
  then show ?case by simp
next
  case (Cons i ins)
  have ge: "PHASE_LAND \<le> current_phase (fst (iteration s i))"
    using Cons.prems iteration_phase_mono [of s i] by linarith
  then have "setpoints (snd (iteration s i)) = []"
    by (simp add: iteration_setpoints)
  then show ?case
    using Cons.IH [OF ge] by (simp add: main_loop_Cons)
qed

text \<open>
  Claim C4. In every iteration the setpoint is published exactly when the phase, as
  line 170 reads it (after the phase machine of that iteration has run), is before
  \<^verbatim>\<open>PHASE_LAND\<close>, and what is published is the target pose of that moment. From a
  state whose phase has reached \<^verbatim>\<open>PHASE_LAND\<close>, no iteration of any continuation of
  the run publishes: the setpoints of all later iterations together are the empty
  list.
\<close>

theorem publish_iff_before_land:
  "setpoints (snd (iteration s i)) =
     (if current_phase (fst (iteration s i)) < PHASE_LAND then [pose (fst (iteration s i))]
      else []) \<and>
   (PHASE_LAND \<le> current_phase s \<longrightarrow> concat (map setpoints (snd (main_loop s ins))) = [])"
  using landed_never_publishes [of s ins] by (simp add: iteration_setpoints)

theorem publish_iff_before_land_witness:
  "PHASE_LAND \<le> current_phase (in_phase PHASE_LAND 0 (flying True)) \<and>
   concat (map setpoints
     (snd (main_loop (in_phase PHASE_LAND 0 (flying True)) [turn 50 [], turn 51 []]))) = []"
proof -
  have h: "PHASE_LAND \<le> current_phase (in_phase PHASE_LAND 0 (flying True))"
    by (simp add: in_phase_def)
  show ?thesis
    using h publish_iff_before_land
      [of "in_phase PHASE_LAND 0 (flying True)" "turn 50 []" "[turn 50 [], turn 51 []]"]
    by simp
qed

text \<open>
  Claim C10. An iteration in which the vehicle is not armed or the mode is not
  \<^verbatim>\<open>"OFFBOARD"\<close> leaves the target pose and the phase as they were, and it
  publishes that unchanged pose when the phase is before \<^verbatim>\<open>PHASE_LAND\<close>
  (and nothing otherwise).
\<close>

theorem idle_iteration_frame:
  assumes "\<not> (armed (current_state s) \<and> mode (current_state s) = ''OFFBOARD'')"
  shows "pose (fst (iteration s i)) = pose s \<and>
         current_phase (fst (iteration s i)) = current_phase s \<and>
         setpoints (snd (iteration s i)) = (if current_phase s < PHASE_LAND then [pose s] else [])"
proof -
  have "mission_phase (fst (command_arbitration s i)) i = (fst (command_arbitration s i), [])"
    using assms by (intro mission_phase_idle) (simp add: arbitration_frame)
  then have st: "fst (iteration s i) = spinOnce (fst (command_arbitration s i)) i"
    by (simp add: iteration_eq)
  have p: "pose (fst (iteration s i)) = pose s"
    and c: "current_phase (fst (iteration s i)) = current_phase s"
    by (simp_all add: st spinOnce_eq arbitration_frame)
  show ?thesis
    using p c by (simp add: iteration_setpoints)
qed

theorem idle_iteration_frame_witness:
  "armed (current_state initial_state) = False \<and>
   pose (fst (iteration initial_state (turn 1 [flying True]))) = pose initial_state \<and>
   current_phase (fst (iteration initial_state (turn 1 [flying True]))) = PHASE_TAKEOFF \<and>
   setpoints (snd (iteration initial_state (turn 1 [flying True]))) =
     [\<lparr>pos_x = 0, pos_y = 0, pos_z = TAKEOFF_Z\<rparr>]"
proof -
  have h: "\<not> (armed (current_state initial_state) \<and>
              mode (current_state initial_state) = ''OFFBOARD'')"
    by (simp add: initial_state_def)
  show ?thesis
    using idle_iteration_frame [OF h, of "turn 1 [flying True]"]
    by (simp add: initial_state_def phase_defs)
qed

subsection \<open>Service calls\<close>

lemma service_calls_simps:
  "service_calls [] = []"
  "service_calls (Publish p # ev) = service_calls ev"
  "service_calls (SetModeCall m # ev) = SetModeCall m # service_calls ev"
  "service_calls (ArmingCall b # ev) = ArmingCall b # service_calls ev"
  "service_calls (ev @ ev') = service_calls ev @ service_calls ev'"
  by (simp_all add: service_calls_def)

lemma service_calls_publish: "service_calls (publish_setpoint s) = []"
  by (simp add: publish_setpoint_def service_calls_simps)

lemma service_calls_arbitration:
  "length (service_calls (snd (command_arbitration s i))) \<le> 1"
  by (simp add: command_arbitration_def Let_def service_calls_simps)

lemma service_calls_mission_phase:
  "length (service_calls (snd (mission_phase s i))) \<le> 1"
  by (simp add: mission_phase_def Let_def service_calls_simps)

lemma land_not_arbitration:
  "SetModeCall ''AUTO.LAND'' \<notin> set (snd (command_arbitration s i))"
  by (simp add: command_arbitration_def Let_def)

lemma land_not_publish: "SetModeCall m \<notin> set (publish_setpoint s)"
  by (simp add: publish_setpoint_def)

text \<open>
  Claim C9. An iteration makes at most one service call. When it makes the
  \<^verbatim>\<open>AUTO.LAND\<close> request, the state snapshot of that iteration is armed and in
  \<^verbatim>\<open>"OFFBOARD"\<close>, the arbitration of lines 88-101 has issued nothing, and the
  \<^verbatim>\<open>AUTO.LAND\<close> request is the only service call of the iteration.
\<close>

theorem one_service_call_per_iteration:
  "length (service_calls (snd (iteration s i))) \<le> 1 \<and>
   (SetModeCall ''AUTO.LAND'' \<in> set (snd (iteration s i)) \<longrightarrow>
      armed (current_state s) \<and> mode (current_state s) = ''OFFBOARD'' \<and>
      snd (command_arbitration s i) = [] \<and>
      service_calls (snd (iteration s i)) = [SetModeCall ''AUTO.LAND''])"
proof (cases "armed (current_state s) \<and> mode (current_state s) = ''OFFBOARD''")
  case True
  then have q: "command_arbitration s i = (s, [])"
    by (simp add: arbitration_quiet)
  have "service_calls (snd (iteration s i)) = service_calls (snd (mission_phase s i))"
    by (simp add: iteration_eq q service_calls_simps service_calls_publish)
  moreover have "SetModeCall ''AUTO.LAND'' \<in> set (snd (iteration s i)) \<Longrightarrow>
      snd (mission_phase s i) = [SetModeCall ''AUTO.LAND'']"
    by (auto simp: iteration_eq q mission_phase_events publish_setpoint_def split: if_splits)
  ultimately show ?thesis
    using True q service_calls_mission_phase [of s i] by (auto simp: service_calls_simps)
next
  case False
  then have idle:
    "mission_phase (fst (command_arbitration s i)) i = (fst (command_arbitration s i), [])"
    by (intro mission_phase_idle) (simp add: arbitration_frame)
  have sc: "service_calls (snd (iteration s i)) = service_calls (snd (command_arbitration s i))"
    by (simp add: iteration_eq idle service_calls_simps service_calls_publish)
  have "snd (iteration s i) =
      snd (command_arbitration s i) @ publish_setpoint (fst (command_arbitration s i))"
    by (simp add: iteration_eq idle)
  then have "SetModeCall ''AUTO.LAND'' \<notin> set (snd (iteration s i))"
    by (simp add: land_not_arbitration land_not_publish)
  then show ?thesis
    using sc service_calls_arbitration [of s i] by simp
qed

theorem one_service_call_per_iteration_witness:
  "SetModeCall ''AUTO.LAND'' \<in> set (snd (iteration (in_phase PHASE_LAND 0 (flying True)) (turn 50 []))) \<and>
   snd (command_arbitration (in_phase PHASE_LAND 0 (flying True)) (turn 50 [])) = [] \<and>
   service_calls (snd (iteration (in_phase PHASE_LAND 0 (flying True)) (turn 50 []))) =
     [SetModeCall ''AUTO.LAND'']"
proof -
  have q: "command_arbitration (in_phase PHASE_LAND 0 (flying True)) (turn 50 []) =
      (in_phase PHASE_LAND 0 (flying True), [])"
    by (rule arbitration_quiet) (simp_all add: in_phase_simps flying_simps)
  have h: "SetModeCall ''AUTO.LAND'' \<in>
      set (snd (iteration (in_phase PHASE_LAND 0 (flying True)) (turn 50 [])))"
    by (simp add: iteration_eq q mission_phase_events in_phase_simps flying_simps)
  show ?thesis
    using h one_service_call_per_iteration
      [of "in_phase PHASE_LAND 0 (flying True)" "turn 50 []"]
    by simp
qed

subsection \<open>The phase sequence\<close>

lemma phase_trace_hd: "hd (phase_trace s ins) = current_phase s"
  by (cases ins) simp_all

lemma phase_trace_nonempty: "phase_trace s ins \<noteq> []"
  by (cases ins) simp_all

lemma stepwise_Cons:
  "xs \<noteq> [] \<Longrightarrow> stepwise (p # xs) = ((hd xs = p \<or> hd xs = p + 1) \<and> stepwise xs)"
  by (cases xs) simp_all

lemma stepwise_phase_trace: "stepwise (phase_trace s ins)"
proof (induction ins arbitrary: s)
  case Nil
  show ?case by simp
next
  case (Cons i ins)
  show ?case
    using iteration_phase_step [of s i] Cons.IH [of "fst (iteration s i)"]
    by (auto simp: stepwise_Cons phase_trace_nonempty phase_trace_hd)
qed

lemma phase_trace_lower: "p \<in> set (phase_trace s ins) \<Longrightarrow> current_phase s \<le> p"
proof (induction ins arbitrary: s)
  case Nil
  then show ?case by simp
next
  case (Cons i ins)
  then show ?case
    using iteration_phase_mono [of s i] by fastforce
qed

lemma sorted_phase_trace: "sorted (phase_trace s ins)"
  by (induction ins arbitrary: s) (auto dest: phase_trace_lower intro: order_trans [OF iteration_phase_mono])

lemma phase_trace_range:
  "PHASE_TAKEOFF \<le> current_phase s \<Longrightarrow> current_phase s \<le> PHASE_COMPLETE \<Longrightarrow>
   p \<in> set (phase_trace s ins) \<Longrightarrow> PHASE_TAKEOFF \<le> p \<and> p \<le> PHASE_COMPLETE"
proof (induction ins arbitrary: s)
  case Nil
  then show ?case by simp
next
  case (Cons i ins)
  have "PHASE_TAKEOFF \<le> current_phase (fst (iteration s i))"
    "current_phase (fst (iteration s i)) \<le> PHASE_COMPLETE"
    using iteration_phase_step [of s i] Cons.prems(1,2) by auto
  then show ?case
    using Cons.IH [of "fst (iteration s i)"] Cons.prems by auto
qed

lemma spinOnce_frame:
  "current_phase (spinOnce s i) = current_phase s"
  "pose (spinOnce s i) = pose s"
  "phase_start_time (spinOnce s i) = phase_start_time s"
  "last_request (spinOnce s i) = last_request s"
  "mission_start_time (spinOnce s i) = mission_start_time s"
  by (simp_all add: spinOnce_eq)

lemma wait_connected_frame:
  "current_phase (fst (wait_connected s env)) = current_phase s \<and>
   pose (fst (wait_connected s env)) = pose s"
  by (induction s env rule: wait_connected.induct) (simp_all add: spinOnce_frame)

lemma warm_up_Cons:
  "warm_up (Suc n) s (i # is) =
     ((fst (fst (warm_up n (spinOnce s i) is)),
       [Publish (pose s)] # snd (fst (warm_up n (spinOnce s i) is))),
      snd (warm_up n (spinOnce s i) is))"
  by (simp split: prod.splits)

declare warm_up.simps(3) [simp del]

lemma warm_up_frame:
  "current_phase (fst (fst (warm_up n s env))) = current_phase s \<and>
   pose (fst (fst (warm_up n s env))) = pose s"
  by (induction n s env rule: warm_up.induct) (simp_all add: warm_up_Cons spinOnce_frame)

lemma pre_loop_frame:
  "current_phase (fst (pre_loop a b c env)) = PHASE_TAKEOFF \<and>
   pose (fst (pre_loop a b c env)) = \<lparr>pos_x = 0, pos_y = 0, pos_z = TAKEOFF_Z\<rparr>"
proof -
  obtain s1 env1 where w: "wait_connected initial_state env = (s1, env1)"
    by (cases "wait_connected initial_state env")
  obtain s2 evs2 env2 where u: "warm_up 100 s1 env1 = ((s2, evs2), env2)"
    by (metis surj_pair)
  have i: "current_phase initial_state = PHASE_TAKEOFF"
    "pose initial_state = \<lparr>pos_x = 0, pos_y = 0, pos_z = TAKEOFF_Z\<rparr>"
    by (simp_all add: initial_state_def)
  have "current_phase s1 = PHASE_TAKEOFF \<and> pose s1 = \<lparr>pos_x = 0, pos_y = 0, pos_z = TAKEOFF_Z\<rparr>"
    using wait_connected_frame [of initial_state env] i by (simp add: w)
  then have "current_phase s2 = PHASE_TAKEOFF \<and> pose s2 = \<lparr>pos_x = 0, pos_y = 0, pos_z = TAKEOFF_Z\<rparr>"
    using warm_up_frame [of 100 s1 env1] by (simp add: u)
  then show ?thesis
    by (simp add: pre_loop_def w u loop_entry_def)
qed

subsection \<open>A concrete mission\<close>

lemma duration_bounds: "13 < required_figure8_duration" "required_figure8_duration < 27"
  using pi_ge_two pi_less_4 by (simp_all add: required_figure8_duration_def ANGULAR_SPEED_def)

lemma spinOnce_quiet: "state_msgs i = [] \<Longrightarrow> pose_msgs i = [] \<Longrightarrow> spinOnce s i = s"
  by (simp add: spinOnce_eq)

lemma warm_up_quiet:
  "state_msgs i = [] \<Longrightarrow> pose_msgs i = [] \<Longrightarrow>
   warm_up n s (replicate n i @ rest) = ((s, replicate n [Publish (pose s)]), rest)"
  by (induction n) (simp_all add: warm_up_Cons spinOnce_quiet)

lemma wait_connected_done: "connected (current_state s) \<Longrightarrow> wait_connected s env = (s, env)"
  by (cases env) simp_all

lemma pre_loop_startup:
  "pre_loop a b c (startup @ rest) =
     ((in_phase PHASE_TAKEOFF c (flying True))\<lparr>last_request := a, mission_start_time := b\<rparr>,
      replicate 100 [Publish \<lparr>pos_x = 0, pos_y = 0, pos_z = TAKEOFF_Z\<rparr>], rest)"
proof -
  have w: "wait_connected initial_state (startup @ rest) =
      (in_phase PHASE_TAKEOFF 0 (flying True), replicate 100 (turn 0 []) @ rest)"
  proof -
    have "spinOnce initial_state (turn 0 [flying True]) = in_phase PHASE_TAKEOFF 0 (flying True)"
      by (simp add: initial_state_def in_phase_def spinOnce_eq turn_simps)
    moreover have "\<not> connected (current_state initial_state)"
      by (simp add: initial_state_def)
    ultimately show ?thesis
      by (simp add: startup_def wait_connected_done in_phase_simps flying_simps)
  qed
  have u: "warm_up 100 (in_phase PHASE_TAKEOFF 0 (flying True)) (replicate 100 (turn 0 []) @ rest) =
      ((in_phase PHASE_TAKEOFF 0 (flying True),
        replicate 100 [Publish (pose (in_phase PHASE_TAKEOFF 0 (flying True)))]), rest)"
    by (rule warm_up_quiet) (simp_all add: turn_simps)
  show ?thesis
    by (simp add: pre_loop_def w u loop_entry_def in_phase_simps) (simp add: in_phase_def)
qed

lemma iteration_flying:
  "armed (current_state s) \<Longrightarrow> mode (current_state s) = ''OFFBOARD'' \<Longrightarrow>
   iteration s i =
     (spinOnce (fst (mission_phase s i)) i,
      snd (mission_phase s i) @ publish_setpoint (fst (mission_phase s i)))"
  by (simp add: iteration_eq arbitration_quiet)

lemma flying_takeoff_done:
  "15 \<le> t - t0 \<Longrightarrow>
   iteration ((in_phase PHASE_TAKEOFF t0 (flying c))\<lparr>last_request := a, mission_start_time := b\<rparr>)
       (turn t []) =
     ((in_phase PHASE_FIGURE8 t (flying c))\<lparr>last_request := a, mission_start_time := b\<rparr>,
      [Publish \<lparr>pos_x = 0, pos_y = 0, pos_z = TAKEOFF_Z\<rparr>])"
  by (simp add: iteration_flying in_phase_simps flying_simps)
     (simp add: mission_phase_def in_phase_def initial_state_def flying_def turn_simps
       spinOnce_quiet publish_setpoint_def phase_defs)

lemma flying_figure8_done:
  "required_figure8_duration \<le> t - t0 \<Longrightarrow>
   iteration ((in_phase PHASE_FIGURE8 t0 (flying c))\<lparr>last_request := a, mission_start_time := b\<rparr>)
       (turn t []) =
     ((in_phase PHASE_LAND t0 (flying c))\<lparr>last_request := a, mission_start_time := b\<rparr>, [])"
  by (simp add: iteration_flying in_phase_simps flying_simps)
     (simp add: mission_phase_def in_phase_def initial_state_def flying_def turn_simps
       spinOnce_quiet publish_setpoint_def phase_defs figure8_target_def Let_def)

lemma flying_land:
  "iteration ((in_phase PHASE_LAND t0 (flying c))\<lparr>last_request := a, mission_start_time := b\<rparr>)
       (turn t []) =
     ((in_phase PHASE_COMPLETE t0 (flying c))\<lparr>last_request := a, mission_start_time := b\<rparr>,
      [SetModeCall ''AUTO.LAND''])"
  by (simp add: iteration_flying in_phase_simps flying_simps)
     (simp add: mission_phase_def in_phase_def initial_state_def flying_def turn_simps
       spinOnce_quiet publish_setpoint_def phase_defs)

lemma flying_complete:
  "iteration ((in_phase PHASE_COMPLETE t0 (flying c))\<lparr>last_request := a, mission_start_time := b\<rparr>)
       (turn t []) =
     ((in_phase PHASE_COMPLETE t0 (flying c))\<lparr>last_request := a, mission_start_time := b\<rparr>, [])"
  by (simp add: iteration_flying in_phase_simps flying_simps)
     (simp add: mission_phase_def in_phase_def initial_state_def flying_def turn_simps
       spinOnce_quiet publish_setpoint_def phase_defs)

subsection \<open>Monotone phases\<close>

text \<open>
  Claim C3. The control loop is entered in \<^verbatim>\<open>PHASE_TAKEOFF\<close>, and along every run
  the list of phases (before the first iteration and after each one) only ever
  repeats its last phase or moves to the next one: it is non-decreasing, each step
  is by 0 or 1, and every phase in it is one of the four. Hence no iteration moves
  the phase backward, none skips a phase, and a phase once left does not come back.
\<close>

theorem phase_advances_monotonically:
  assumes "pre_loop now_77 now_78 now_79 env = (s, evs, env2)"
  shows "hd (phase_trace s env2) = PHASE_TAKEOFF \<and>
         stepwise (phase_trace s env2) \<and>
         sorted (phase_trace s env2) \<and>
         set (phase_trace s env2) \<subseteq> {PHASE_TAKEOFF, PHASE_FIGURE8, PHASE_LAND, PHASE_COMPLETE}"
proof -
  have ph: "current_phase s = PHASE_TAKEOFF"
    using pre_loop_frame [of now_77 now_78 now_79 env] by (simp add: assms)
  have "p \<in> {PHASE_TAKEOFF, PHASE_FIGURE8, PHASE_LAND, PHASE_COMPLETE}"
    if "p \<in> set (phase_trace s env2)" for p
  proof -
    have "PHASE_TAKEOFF \<le> p \<and> p \<le> PHASE_COMPLETE"
      using phase_trace_range [OF _ _ that] by (simp add: ph phase_defs)
    then show ?thesis
      by (auto simp: phase_defs)
  qed
  then show ?thesis
    by (auto simp: phase_trace_hd ph stepwise_phase_trace sorted_phase_trace)
qed


theorem phase_advances_monotonically_witness:
  "pre_loop 0 0 0 (startup @ [turn 20 [], turn 100 [], turn 101 [], turn 102 []]) =
     ((in_phase PHASE_TAKEOFF 0 (flying True))\<lparr>last_request := 0, mission_start_time := 0\<rparr>,
      replicate 100 [Publish \<lparr>pos_x = 0, pos_y = 0, pos_z = TAKEOFF_Z\<rparr>],
      [turn 20 [], turn 100 [], turn 101 [], turn 102 []]) \<and>
   phase_trace ((in_phase PHASE_TAKEOFF 0 (flying True))\<lparr>last_request := 0, mission_start_time := 0\<rparr>)
       [turn 20 [], turn 100 [], turn 101 [], turn 102 []] =
     [PHASE_TAKEOFF, PHASE_FIGURE8, PHASE_LAND, PHASE_COMPLETE, PHASE_COMPLETE] \<and>
   stepwise (phase_trace
       ((in_phase PHASE_TAKEOFF 0 (flying True))\<lparr>last_request := 0, mission_start_time := 0\<rparr>)
       [turn 20 [], turn 100 [], turn 101 [], turn 102 []]) \<and>
   sorted (phase_trace
       ((in_phase PHASE_TAKEOFF 0 (flying True))\<lparr>last_request := 0, mission_start_time := 0\<rparr>)
       [turn 20 [], turn 100 [], turn 101 [], turn 102 []])"
proof -
  have h: "pre_loop 0 0 0 (startup @ [turn 20 [], turn 100 [], turn 101 [], turn 102 []]) =
     ((in_phase PHASE_TAKEOFF 0 (flying True))\<lparr>last_request := 0, mission_start_time := 0\<rparr>,
      replicate 100 [Publish \<lparr>pos_x = 0, pos_y = 0, pos_z = TAKEOFF_Z\<rparr>],
      [turn 20 [], turn 100 [], turn 101 [], turn 102 []])"
    by (rule pre_loop_startup)
  have d: "required_figure8_duration \<le> 100 - 20"
    using duration_bounds(2) by simp
  have tr: "phase_trace
       ((in_phase PHASE_TAKEOFF 0 (flying True))\<lparr>last_request := 0, mission_start_time := 0\<rparr>)
       [turn 20 [], turn 100 [], turn 101 [], turn 102 []] =
     [PHASE_TAKEOFF, PHASE_FIGURE8, PHASE_LAND, PHASE_COMPLETE, PHASE_COMPLETE]"
    by (simp add: flying_takeoff_done flying_figure8_done [OF d] flying_land flying_complete
        in_phase_simps)
  show ?thesis
    using phase_advances_monotonically [OF h] h tr by (simp add: phase_defs)
qed

subsection \<open>Enclosures for \<open>pi\<close>, \<open>sin 1.5\<close> and \<open>cos 1.5\<close>\<close>

lemma cos_poly10:
  fixes x :: real
  shows "(\<Sum>m<10. cos_coeff m * x ^ m) = 1 - x^2 / 2 + x^4 / 24 - x^6 / 720 + x^8 / 40320"
proof -
  have c: "cos_coeff 2 = - 1 / 2" "cos_coeff 4 = 1 / 24" "cos_coeff 6 = - 1 / 720"
    "cos_coeff 8 = 1 / 40320" "cos_coeff 1 = 0" "cos_coeff 3 = 0" "cos_coeff 5 = 0"
    "cos_coeff 7 = 0" "cos_coeff 9 = 0" "cos_coeff (Suc 0) = 0"
    by (simp_all add: cos_coeff_def fact_numeral)
  have "{..<10::nat} = {0,1,2,3,4,5,6,7,8,9}"
    by (simp add: set_eq_iff) presburger
  then have "(\<Sum>m<10. cos_coeff m * x ^ m) = (\<Sum>m\<in>{0,1,2,3,4,5,6,7,8,9}. cos_coeff m * x ^ m)"
    by (simp only:)
  also have "\<dots> = 1 - x^2 / 2 + x^4 / 24 - x^6 / 720 + x^8 / 40320"
    by (simp add: c)
  finally show ?thesis .
qed

lemma cos_enclosure:
  fixes x :: real
  assumes "0 < x"
  shows "\<bar>cos x - (1 - x^2 / 2 + x^4 / 24 - x^6 / 720 + x^8 / 40320)\<bar> \<le> x ^ 10 / 3628800"
proof -
  obtain t where "cos x = (\<Sum>m<10. cos_coeff m * x ^ m) + (cos (t + 1/2 * real 10 * pi) / fact 10) * x ^ 10"
    using Maclaurin_cos_expansion2 [OF assms, of 10] by auto
  then have e: "cos x - (1 - x^2 / 2 + x^4 / 24 - x^6 / 720 + x^8 / 40320) =
      cos (t + 1/2 * real 10 * pi) * (x ^ 10 / 3628800)"
    by (simp add: cos_poly10 fact_numeral)
  have "\<bar>cos (t + 1/2 * real 10 * pi) * (x ^ 10 / 3628800)\<bar> \<le> 1 * (x ^ 10 / 3628800)"
    unfolding abs_mult using assms
    by (intro mult_mono) simp_all
  then show ?thesis
    by (simp add: e)
qed

lemma pi_bounds: "3.14145 < pi" "pi < 3.14175"
proof -
  have ea: "\<bar>cos (62829 / 40000 :: real) - (1 - (62829 / 40000)^2 / 2 + (62829 / 40000)^4 / 24
      - (62829 / 40000)^6 / 720 + (62829 / 40000)^8 / 40320)\<bar> \<le> (62829 / 40000) ^ 10 / 3628800"
    by (rule cos_enclosure) simp
  have pa: "(0::real) < (1 - (62829 / 40000)^2 / 2 + (62829 / 40000)^4 / 24
      - (62829 / 40000)^6 / 720 + (62829 / 40000)^8 / 40320) - (62829 / 40000) ^ 10 / 3628800"
    by (simp add: power_divide)
  have a: "0 < cos (62829 / 40000 :: real)"
    using ea pa by linarith
  have eb: "\<bar>cos (12567 / 8000 :: real) - (1 - (12567 / 8000)^2 / 2 + (12567 / 8000)^4 / 24
      - (12567 / 8000)^6 / 720 + (12567 / 8000)^8 / 40320)\<bar> \<le> (12567 / 8000) ^ 10 / 3628800"
    by (rule cos_enclosure) simp
  have pb: "(1 - (12567 / 8000)^2 / 2 + (12567 / 8000)^4 / 24
      - (12567 / 8000)^6 / 720 + (12567 / 8000)^8 / 40320) + (12567 / 8000) ^ 10 / 3628800 < (0::real)"
    by (simp add: power_divide)
  have b: "cos (12567 / 8000 :: real) < 0"
    using eb pb by linarith
  have "\<not> pi / 2 \<le> 62829 / 40000"
    using cos_mono_le_eq [of "62829 / 40000" "pi / 2"] a pi_ge_two by auto
  then show "3.14145 < pi" by simp
  have "pi / 2 < 12567 / 8000"
    using cos_mono_less_eq [of "12567 / 8000" "pi / 2"] b pi_ge_two by auto
  then show "pi < 3.14175" by simp
qed


lemma duration_value:
  "required_figure8_duration = 2 * pi / ANGULAR_SPEED"
  "20.943 < required_figure8_duration" "required_figure8_duration < 20.945"
  using pi_bounds by (simp_all add: required_figure8_duration_def ANGULAR_SPEED_def)

lemma sin_poly11:
  fixes x :: real
  shows "(\<Sum>m<11. sin_coeff m * x ^ m) = x - x^3 / 6 + x^5 / 120 - x^7 / 5040 + x^9 / 362880"
proof -
  have c: "sin_coeff 1 = 1" "sin_coeff (Suc 0) = 1" "sin_coeff 3 = - 1 / 6" "sin_coeff 5 = 1 / 120"
    "sin_coeff 7 = - 1 / 5040" "sin_coeff 9 = 1 / 362880" "sin_coeff 2 = 0" "sin_coeff 4 = 0"
    "sin_coeff 6 = 0" "sin_coeff 8 = 0" "sin_coeff 10 = 0"
    by (simp_all add: sin_coeff_def fact_numeral)
  have "{..<11::nat} = {0,1,2,3,4,5,6,7,8,9,10}"
    by (simp add: set_eq_iff) presburger
  then have "(\<Sum>m<11. sin_coeff m * x ^ m) = (\<Sum>m\<in>{0,1,2,3,4,5,6,7,8,9,10}. sin_coeff m * x ^ m)"
    by (simp only:)
  also have "\<dots> = x - x^3 / 6 + x^5 / 120 - x^7 / 5040 + x^9 / 362880"
    by (simp add: c)
  finally show ?thesis .
qed

lemma sin_enclosure:
  fixes x :: real
  shows "\<bar>sin x - (x - x^3 / 6 + x^5 / 120 - x^7 / 5040 + x^9 / 362880)\<bar> \<le> \<bar>x\<bar> ^ 11 / 39916800"
proof -
  have "fact 11 = (39916800::real)"
    by (simp add: fact_numeral)
  then have f: "inverse (fact 11) * \<bar>x\<bar> ^ 11 = \<bar>x\<bar> ^ 11 / 39916800"
    by (simp add: field_simps)
  show ?thesis
    using Maclaurin_sin_bound [of x 11] unfolding sin_poly11 f .
qed

lemma sin_three_halves: "0.99749 < sin (3 / 2 :: real)" "sin (3 / 2 :: real) < 0.9975"
proof -
  have e: "\<bar>sin (3 / 2 :: real) - (3 / 2 - (3 / 2)^3 / 6 + (3 / 2)^5 / 120 - (3 / 2)^7 / 5040
      + (3 / 2)^9 / 362880)\<bar> \<le> \<bar>3 / 2\<bar> ^ 11 / 39916800"
    by (rule sin_enclosure)
  have l: "(0.99749 :: real) < (3 / 2 - (3 / 2)^3 / 6 + (3 / 2)^5 / 120 - (3 / 2)^7 / 5040
      + (3 / 2)^9 / 362880) - \<bar>3 / 2\<bar> ^ 11 / 39916800"
    by (simp add: power_divide)
  have u: "(3 / 2 - (3 / 2)^3 / 6 + (3 / 2)^5 / 120 - (3 / 2)^7 / 5040
      + (3 / 2)^9 / 362880) + \<bar>3 / 2\<bar> ^ 11 / 39916800 < (0.9975 :: real)"
    by (simp add: power_divide)
  show "0.99749 < sin (3 / 2 :: real)" using e l by linarith
  show "sin (3 / 2 :: real) < 0.9975" using e u by linarith
qed

lemma cos_three_halves: "0.07072 < cos (3 / 2 :: real)" "cos (3 / 2 :: real) < 0.07077"
proof -
  have e: "\<bar>cos (3 / 2 :: real) - (1 - (3 / 2)^2 / 2 + (3 / 2)^4 / 24 - (3 / 2)^6 / 720
      + (3 / 2)^8 / 40320)\<bar> \<le> (3 / 2) ^ 10 / 3628800"
    by (rule cos_enclosure) simp
  have l: "(0.07072 :: real) < (1 - (3 / 2)^2 / 2 + (3 / 2)^4 / 24 - (3 / 2)^6 / 720
      + (3 / 2)^8 / 40320) - (3 / 2) ^ 10 / 3628800"
    by (simp add: power_divide)
  have u: "(1 - (3 / 2)^2 / 2 + (3 / 2)^4 / 24 - (3 / 2)^6 / 720
      + (3 / 2)^8 / 40320) + (3 / 2) ^ 10 / 3628800 < (0.07077 :: real)"
    by (simp add: power_divide)
  show "0.07072 < cos (3 / 2 :: real)" using e l by linarith
  show "cos (3 / 2 :: real) < 0.07077" using e u by linarith
qed

lemma example_point:
  "14.962 < 15 * sin (3 / 2 :: real)" "15 * sin (3 / 2 :: real) < 14.963"
  "1.058 < 15 * sin (3 / 2 :: real) * cos (3 / 2)" "15 * sin (3 / 2 :: real) * cos (3 / 2) < 1.059"
proof -
  show x: "14.962 < 15 * sin (3 / 2 :: real)" "15 * sin (3 / 2 :: real) < 14.963"
    using sin_three_halves by simp_all
  define a :: real where "a = 15 * sin (3 / 2)"
  define c :: real where "c = cos (3 / 2)"
  have a: "14.962 < a" "a < 14.963"
    using x by (simp_all add: a_def)
  have c: "0.07072 < c" "c < 0.07077"
    using cos_three_halves by (simp_all add: c_def)
  have "14.962 * 0.07072 \<le> a * c"
    using a c by (intro mult_mono) simp_all
  then have "1.058 < a * c"
    by simp
  then show "1.058 < 15 * sin (3 / 2 :: real) * cos (3 / 2)"
    by (simp only: a_def c_def)
  have "a * c \<le> 14.963 * 0.07077"
    using a c by (intro mult_mono) simp_all
  then have "a * c < 1.059"
    by simp
  then show "15 * sin (3 / 2 :: real) * cos (3 / 2) < 1.059"
    by (simp only: a_def c_def)
qed

subsection \<open>The Figure8 phase\<close>

lemma figure8_iteration:
  assumes "armed (current_state s)" "mode (current_state s) = ''OFFBOARD''"
    and "current_phase s = PHASE_FIGURE8"
  shows "iteration s i =
     (if required_figure8_duration \<le> now_106 i - phase_start_time s
      then (spinOnce (s\<lparr>current_phase := PHASE_LAND,
                         pose := (figure8_target (now_106 i - phase_start_time s) (pose s))
                                    \<lparr>pos_x := 0, pos_y := 0\<rparr>\<rparr>) i, [])
      else (spinOnce (s\<lparr>pose := figure8_target (now_106 i - phase_start_time s) (pose s)\<rparr>) i,
            [Publish (figure8_target (now_106 i - phase_start_time s) (pose s))]))"
  using assms
  by (simp add: iteration_flying mission_phase_def Let_def publish_setpoint_def phase_defs)

lemma idle_frame:
  "\<not> (armed (current_state s) \<and> mode (current_state s) = ''OFFBOARD'') \<Longrightarrow>
   current_phase (fst (iteration s i)) = current_phase s \<and> pose (fst (iteration s i)) = pose s"
  by (simp add: iteration_eq mission_phase_idle arbitration_frame spinOnce_frame)

lemma iteration_pose_z:
  "pos_z (pose s) = TAKEOFF_Z \<Longrightarrow> pos_z (pose (fst (iteration s i))) = TAKEOFF_Z"
  by (simp add: iteration_eq spinOnce_frame mission_phase_def Let_def figure8_target_def
      arbitration_frame)

lemma main_loop_pose_z:
  "pos_z (pose s) = TAKEOFF_Z \<Longrightarrow> pos_z (pose (fst (main_loop s ins))) = TAKEOFF_Z"
  by (induction ins arbitrary: s) (simp_all add: main_loop_Cons iteration_pose_z)

lemma main_startup:
  "main a b c (startup @ rest) =
     (fst (main_loop ((in_phase PHASE_TAKEOFF c (flying True))
            \<lparr>last_request := a, mission_start_time := b\<rparr>) rest),
      replicate 100 [Publish \<lparr>pos_x = 0, pos_y = 0, pos_z = TAKEOFF_Z\<rparr>] @
      snd (main_loop ((in_phase PHASE_TAKEOFF c (flying True))
            \<lparr>last_request := a, mission_start_time := b\<rparr>) rest))"
  by (simp add: main_def pre_loop_startup split: prod.splits)

lemma mission_states:
  "fst (main_loop ((in_phase PHASE_TAKEOFF 0 (flying True))
          \<lparr>last_request := 0, mission_start_time := 0\<rparr>) [turn 20 []]) =
     (in_phase PHASE_FIGURE8 20 (flying True))\<lparr>last_request := 0, mission_start_time := 0\<rparr>"
  "fst (main_loop ((in_phase PHASE_TAKEOFF 0 (flying True))
          \<lparr>last_request := 0, mission_start_time := 0\<rparr>) [turn 20 [], turn 100 []]) =
     (in_phase PHASE_LAND 20 (flying True))\<lparr>last_request := 0, mission_start_time := 0\<rparr>"
  "fst (main_loop ((in_phase PHASE_TAKEOFF 0 (flying True))
          \<lparr>last_request := 0, mission_start_time := 0\<rparr>) [turn 20 [], turn 100 [], turn 101 []]) =
     (in_phase PHASE_COMPLETE 20 (flying True))\<lparr>last_request := 0, mission_start_time := 0\<rparr>"
proof -
  have d: "required_figure8_duration \<le> 100 - 20"
    using duration_bounds(2) by simp
  show "fst (main_loop ((in_phase PHASE_TAKEOFF 0 (flying True))
          \<lparr>last_request := 0, mission_start_time := 0\<rparr>) [turn 20 []]) =
     (in_phase PHASE_FIGURE8 20 (flying True))\<lparr>last_request := 0, mission_start_time := 0\<rparr>"
    by (simp add: main_loop_Cons flying_takeoff_done)
  show "fst (main_loop ((in_phase PHASE_TAKEOFF 0 (flying True))
          \<lparr>last_request := 0, mission_start_time := 0\<rparr>) [turn 20 [], turn 100 []]) =
     (in_phase PHASE_LAND 20 (flying True))\<lparr>last_request := 0, mission_start_time := 0\<rparr>"
    by (simp add: main_loop_Cons flying_takeoff_done flying_figure8_done [OF d])
  show "fst (main_loop ((in_phase PHASE_TAKEOFF 0 (flying True))
          \<lparr>last_request := 0, mission_start_time := 0\<rparr>) [turn 20 [], turn 100 [], turn 101 []]) =
     (in_phase PHASE_COMPLETE 20 (flying True))\<lparr>last_request := 0, mission_start_time := 0\<rparr>"
    by (simp add: main_loop_Cons flying_takeoff_done flying_figure8_done [OF d] flying_land)
qed

lemma figure8_target_eq:
  "figure8_target t p =
     \<lparr>pos_x = RADIUS * sin (ANGULAR_SPEED * t),
      pos_y = RADIUS * sin (ANGULAR_SPEED * t) * cos (ANGULAR_SPEED * t),
      pos_z = TAKEOFF_Z\<rparr>"
  by (simp add: figure8_target_def Let_def)

text \<open>
  Claim C1. In a state the program can reach whose phase is \<^verbatim>\<open>PHASE_FIGURE8\<close>, an
  iteration moves the phase to \<^verbatim>\<open>PHASE_LAND\<close> exactly when the phase machine runs
  (armed, mode \<^verbatim>\<open>"OFFBOARD"\<close>) and the time in phase read at line 106 has reached
  \<open>2\<pi> / ANGULAR_SPEED\<close>, which lies between 20.943 s and 20.945 s. In the
  iteration of the transition the target's x and y are set to 0, z keeps its value,
  and the point computed for the curve in that iteration is not published: the
  iteration publishes nothing, and neither does any later one.
\<close>

theorem figure8_to_land:
  assumes "pre_loop now_77 now_78 now_79 env = (s0, evs, env2)"
    and "s = fst (main_loop s0 ins)"
    and "current_phase s = PHASE_FIGURE8"
  shows "(current_phase (fst (iteration s i)) = PHASE_LAND) =
           (armed (current_state s) \<and> mode (current_state s) = ''OFFBOARD'' \<and>
            required_figure8_duration \<le> now_106 i - phase_start_time s) \<and>
         (current_phase (fst (iteration s i)) = PHASE_LAND \<longrightarrow>
            pos_x (pose (fst (iteration s i))) = 0 \<and>
            pos_y (pose (fst (iteration s i))) = 0 \<and>
            pos_z (pose (fst (iteration s i))) = pos_z (pose s) \<and>
            setpoints (snd (iteration s i)) = [] \<and>
            concat (map setpoints (snd (main_loop (fst (iteration s i)) ins'))) = []) \<and>
         required_figure8_duration = 2 * pi / ANGULAR_SPEED \<and>
         20.943 < required_figure8_duration \<and> required_figure8_duration < 20.945"
proof -
  have "pos_z (pose s0) = TAKEOFF_Z"
    using pre_loop_frame [of now_77 now_78 now_79 env] by (simp add: assms(1))
  then have z: "pos_z (pose s) = TAKEOFF_Z"
    by (simp add: assms(2) main_loop_pose_z)
  have z': "pos_z (pose (fst (iteration s i))) = pos_z (pose s)"
    using z by (simp add: iteration_pose_z)
  have A: "(current_phase (fst (iteration s i)) = PHASE_LAND) =
      (armed (current_state s) \<and> mode (current_state s) = ''OFFBOARD'' \<and>
       required_figure8_duration \<le> now_106 i - phase_start_time s)"
  proof (cases "armed (current_state s) \<and> mode (current_state s) = ''OFFBOARD''")
    case True
    then show ?thesis
      using assms(3) by (simp add: figure8_iteration spinOnce_frame phase_defs)
  next
    case False
    then show ?thesis
      using idle_frame [of s i] assms(3) by (auto simp: phase_defs)
  qed
  have B: "pos_x (pose (fst (iteration s i))) = 0 \<and> pos_y (pose (fst (iteration s i))) = 0 \<and>
      setpoints (snd (iteration s i)) = []"
    if "current_phase (fst (iteration s i)) = PHASE_LAND"
  proof -
    from that A have "armed (current_state s)" "mode (current_state s) = ''OFFBOARD''"
      "required_figure8_duration \<le> now_106 i - phase_start_time s"
      by simp_all
    then show ?thesis
      using assms(3) by (simp add: figure8_iteration spinOnce_frame setpoints_simps)
  qed
  have q: "concat (map setpoints (snd (main_loop (fst (iteration s i)) ins'))) = []"
    if "current_phase (fst (iteration s i)) = PHASE_LAND"
    using that by (intro landed_never_publishes) simp
  show ?thesis
    using A B z' q duration_value by blast
qed

theorem figure8_to_land_witness:
  "current_phase (fst (main_loop ((in_phase PHASE_TAKEOFF 0 (flying True))
       \<lparr>last_request := 0, mission_start_time := 0\<rparr>) [turn 20 []])) = PHASE_FIGURE8 \<and>
   current_phase (fst (iteration (fst (main_loop ((in_phase PHASE_TAKEOFF 0 (flying True))
       \<lparr>last_request := 0, mission_start_time := 0\<rparr>) [turn 20 []])) (turn 100 []))) = PHASE_LAND \<and>
   pose (fst (iteration (fst (main_loop ((in_phase PHASE_TAKEOFF 0 (flying True))
       \<lparr>last_request := 0, mission_start_time := 0\<rparr>) [turn 20 []])) (turn 100 []))) =
     \<lparr>pos_x = 0, pos_y = 0, pos_z = TAKEOFF_Z\<rparr> \<and>
   setpoints (snd (iteration (fst (main_loop ((in_phase PHASE_TAKEOFF 0 (flying True))
       \<lparr>last_request := 0, mission_start_time := 0\<rparr>) [turn 20 []])) (turn 100 []))) = []"
proof -
  have h: "pre_loop 0 0 0 (startup @ [turn 20 []]) =
     ((in_phase PHASE_TAKEOFF 0 (flying True))\<lparr>last_request := 0, mission_start_time := 0\<rparr>,
      replicate 100 [Publish \<lparr>pos_x = 0, pos_y = 0, pos_z = TAKEOFF_Z\<rparr>], [turn 20 []])"
    by (rule pre_loop_startup)
  have p: "current_phase (fst (main_loop ((in_phase PHASE_TAKEOFF 0 (flying True))
       \<lparr>last_request := 0, mission_start_time := 0\<rparr>) [turn 20 []])) = PHASE_FIGURE8"
    by (simp add: mission_states(1) in_phase_simps)
  have d: "required_figure8_duration \<le> 100 - 20"
    using duration_bounds(2) by simp
  have l: "iteration (fst (main_loop ((in_phase PHASE_TAKEOFF 0 (flying True))
       \<lparr>last_request := 0, mission_start_time := 0\<rparr>) [turn 20 []])) (turn 100 []) =
     ((in_phase PHASE_LAND 20 (flying True))\<lparr>last_request := 0, mission_start_time := 0\<rparr>, [])"
    by (simp add: mission_states(1) flying_figure8_done [OF d])
  show ?thesis
    using figure8_to_land [OF h refl p, of "turn 100 []" "[turn 101 []]"] p
    by (simp add: l in_phase_simps)
qed

text \<open>
  Claim C2, as the code has it. After an iteration \<^verbatim>\<open>phase_start_time\<close> is the
  reading of line 91 when the OFFBOARD request was made and succeeded, the reading
  of line 119 when the iteration took the transition from \<^verbatim>\<open>PHASE_TAKEOFF\<close> to
  \<^verbatim>\<open>PHASE_FIGURE8\<close>, and its old value in every other case. In particular the
  transitions from \<^verbatim>\<open>PHASE_FIGURE8\<close> to \<^verbatim>\<open>PHASE_LAND\<close> and from \<^verbatim>\<open>PHASE_LAND\<close>
  to \<^verbatim>\<open>PHASE_COMPLETE\<close>, which need mode \<^verbatim>\<open>"OFFBOARD"\<close>, leave it unchanged.
\<close>

theorem phase_timer_reset:
  "phase_start_time (fst (iteration s i)) =
     (if mode (current_state s) \<noteq> ''OFFBOARD'' \<and> 5 < now_88 i - last_request s \<and>
         offboard_call i \<and> offboard_mode_sent i
      then now_91 i
      else if armed (current_state s) \<and> mode (current_state s) = ''OFFBOARD'' \<and>
              current_phase s = PHASE_TAKEOFF \<and> 15 \<le> now_106 i - phase_start_time s
      then now_119 i
      else phase_start_time s) \<and>
   (mode (current_state s) = ''OFFBOARD'' \<and> current_phase s \<noteq> PHASE_TAKEOFF \<longrightarrow>
      phase_start_time (fst (iteration s i)) = phase_start_time s)"
  by (simp add: iteration_eq spinOnce_frame command_arbitration_def mission_phase_def Let_def
      phase_defs)

theorem phase_timer_reset_witness:
  "mode (current_state ((in_phase PHASE_FIGURE8 20 (flying True))
       \<lparr>last_request := 0, mission_start_time := 0\<rparr>)) = ''OFFBOARD'' \<and>
   phase_start_time (fst (iteration ((in_phase PHASE_FIGURE8 20 (flying True))
       \<lparr>last_request := 0, mission_start_time := 0\<rparr>) (turn 100 []))) = 20 \<and>
   phase_start_time (fst (iteration ((in_phase PHASE_TAKEOFF 0 (flying True))
       \<lparr>last_request := 0, mission_start_time := 0\<rparr>) (turn 20 []))) = 20 \<and>
   phase_start_time (fst (iteration initial_state (turn 6 []))) = 6"
  using phase_timer_reset [of "(in_phase PHASE_FIGURE8 20 (flying True))
       \<lparr>last_request := 0, mission_start_time := 0\<rparr>" "turn 100 []"]
    phase_timer_reset [of "(in_phase PHASE_TAKEOFF 0 (flying True))
       \<lparr>last_request := 0, mission_start_time := 0\<rparr>" "turn 20 []"]
    phase_timer_reset [of initial_state "turn 6 []"]
  by (simp add: in_phase_simps flying_simps turn_simps phase_defs initial_state_def)

text \<open>
  Claim C2 as the specification words it (a reset on every phase transition) fails on
  this run of the program: the loop is entered at time 0, the turn at time 20 ends
  the take-off, the turn at time 100 moves to \<^verbatim>\<open>PHASE_LAND\<close> and the turn at time 101
  to \<^verbatim>\<open>PHASE_COMPLETE\<close>; after both, \<^verbatim>\<open>phase_start_time\<close> is still 20.
\<close>

theorem phase_timer_not_reset_counterexample:
  "current_phase (fst (main 0 0 0 (startup @ [turn 20 []]))) = PHASE_FIGURE8 \<and>
   current_phase (fst (main 0 0 0 (startup @ [turn 20 [], turn 100 []]))) = PHASE_LAND \<and>
   phase_start_time (fst (main 0 0 0 (startup @ [turn 20 [], turn 100 []]))) = 20 \<and>
   now_106 (turn 100 []) = 100 \<and>
   current_phase (fst (main 0 0 0 (startup @ [turn 20 [], turn 100 [], turn 101 []]))) =
     PHASE_COMPLETE \<and>
   phase_start_time (fst (main 0 0 0 (startup @ [turn 20 [], turn 100 [], turn 101 []]))) = 20 \<and>
   now_106 (turn 101 []) = 101"
  by (simp add: main_startup mission_states in_phase_simps turn_simps)


text \<open>
  Claim C6. In an iteration that evaluates \<^verbatim>\<open>PHASE_FIGURE8\<close> at a phase time \<open>t\<close>
  below the loop duration, the target becomes
  \<open>(RADIUS sin (ANGULAR_SPEED t), RADIUS sin (ANGULAR_SPEED t) cos (ANGULAR_SPEED t),
  TAKEOFF_Z)\<close> and this pose is the one published. At \<open>t = 5\<close> it is
  \<open>(15 sin 1.5, 15 sin 1.5 cos 1.5, 6)\<close>, with x between 14.962 and 14.963 and y
  between 1.058 and 1.059: x is 14.96 to two decimals, within 0.013 of the rounded
  14.95 of the specification, and y is 1.06. Over the reals the equality with the
  closed form is exact, so any tolerance holds.
\<close>

theorem figure8_pose:
  assumes "armed (current_state s)" and "mode (current_state s) = ''OFFBOARD''"
    and "current_phase s = PHASE_FIGURE8"
    and "t = now_106 i - phase_start_time s" and "t < required_figure8_duration"
  shows "pose (fst (iteration s i)) =
           \<lparr>pos_x = RADIUS * sin (ANGULAR_SPEED * t),
            pos_y = RADIUS * sin (ANGULAR_SPEED * t) * cos (ANGULAR_SPEED * t),
            pos_z = TAKEOFF_Z\<rparr> \<and>
         setpoints (snd (iteration s i)) = [pose (fst (iteration s i))] \<and>
         (t = 5 \<longrightarrow>
            pose (fst (iteration s i)) =
              \<lparr>pos_x = 15 * sin (3 / 2), pos_y = 15 * sin (3 / 2) * cos (3 / 2), pos_z = 6\<rparr> \<and>
            14.962 < pos_x (pose (fst (iteration s i))) \<and>
            pos_x (pose (fst (iteration s i))) < 14.963 \<and>
            1.058 < pos_y (pose (fst (iteration s i))) \<and>
            pos_y (pose (fst (iteration s i))) < 1.059)"
proof -
  have it: "iteration s i =
      (spinOnce (s\<lparr>pose := figure8_target t (pose s)\<rparr>) i, [Publish (figure8_target t (pose s))])"
    using assms by (simp add: figure8_iteration)
  have p: "pose (fst (iteration s i)) = figure8_target t (pose s)"
    by (simp add: it spinOnce_frame)
  have g: "pose (fst (iteration s i)) =
           \<lparr>pos_x = RADIUS * sin (ANGULAR_SPEED * t),
            pos_y = RADIUS * sin (ANGULAR_SPEED * t) * cos (ANGULAR_SPEED * t),
            pos_z = TAKEOFF_Z\<rparr>"
    by (simp add: p figure8_target_eq)
  have e: "setpoints (snd (iteration s i)) = [pose (fst (iteration s i))]"
    by (simp add: p) (simp add: it setpoints_simps)
  have n: "pose (fst (iteration s i)) =
      \<lparr>pos_x = 15 * sin (3 / 2), pos_y = 15 * sin (3 / 2) * cos (3 / 2), pos_z = 6\<rparr>" if "t = 5"
    using that by (simp add: g RADIUS_def ANGULAR_SPEED_def TAKEOFF_Z_def)
  show ?thesis
    using g e n example_point by auto
qed

theorem figure8_pose_witness:
  "pose (fst (iteration (in_phase PHASE_FIGURE8 20 (flying True)) (turn 25 []))) =
     \<lparr>pos_x = 15 * sin (3 / 2), pos_y = 15 * sin (3 / 2) * cos (3 / 2), pos_z = 6\<rparr> \<and>
   setpoints (snd (iteration (in_phase PHASE_FIGURE8 20 (flying True)) (turn 25 []))) =
     [\<lparr>pos_x = 15 * sin (3 / 2), pos_y = 15 * sin (3 / 2) * cos (3 / 2), pos_z = 6\<rparr>] \<and>
   14.962 < pos_x (pose (fst (iteration (in_phase PHASE_FIGURE8 20 (flying True)) (turn 25 [])))) \<and>
   pos_y (pose (fst (iteration (in_phase PHASE_FIGURE8 20 (flying True)) (turn 25 [])))) < 1.059"
proof -
  have h1: "armed (current_state (in_phase PHASE_FIGURE8 20 (flying True)))"
    and h2: "mode (current_state (in_phase PHASE_FIGURE8 20 (flying True))) = ''OFFBOARD''"
    and h3: "current_phase (in_phase PHASE_FIGURE8 20 (flying True)) = PHASE_FIGURE8"
    and h4: "5 = now_106 (turn 25 []) - phase_start_time (in_phase PHASE_FIGURE8 20 (flying True))"
    by (simp_all add: in_phase_simps flying_simps turn_simps)
  have h5: "5 < required_figure8_duration"
    using duration_bounds(1) by simp
  note r = figure8_pose [OF h1 h2 h3 h4 h5]
  from r have p: "pose (fst (iteration (in_phase PHASE_FIGURE8 20 (flying True)) (turn 25 []))) =
      \<lparr>pos_x = 15 * sin (3 / 2), pos_y = 15 * sin (3 / 2) * cos (3 / 2), pos_z = 6\<rparr>"
    by blast
  from r have e: "setpoints (snd (iteration (in_phase PHASE_FIGURE8 20 (flying True)) (turn 25 []))) =
      [pose (fst (iteration (in_phase PHASE_FIGURE8 20 (flying True)) (turn 25 [])))]"
    by blast
  from r have b:
    "14.962 < pos_x (pose (fst (iteration (in_phase PHASE_FIGURE8 20 (flying True)) (turn 25 []))))"
    "pos_y (pose (fst (iteration (in_phase PHASE_FIGURE8 20 (flying True)) (turn 25 [])))) < 1.059"
    by blast+
  show ?thesis
    using p e [unfolded p] b by blast
qed

subsection \<open>The 5 s throttle\<close>

lemma command_requests_simps:
  "command_requests [] = []"
  "command_requests (Publish p # ev) = command_requests ev"
  "command_requests (SetModeCall m # ev) =
     (if m = ''OFFBOARD'' then SetModeCall m # command_requests ev else command_requests ev)"
  "command_requests (ArmingCall b # ev) = ArmingCall b # command_requests ev"
  "command_requests (ev @ ev') = command_requests ev @ command_requests ev'"
  by (simp_all add: command_requests_def)

lemma arbitration_events:
  "snd (command_arbitration s i) =
     (if mode (current_state s) \<noteq> ''OFFBOARD'' \<and> 5 < now_88 i - last_request s
      then [SetModeCall ''OFFBOARD'']
      else if \<not> armed (current_state s) \<and> 5 < now_95 i - last_request s
      then [ArmingCall True] else [])"
  by (simp add: command_arbitration_def Let_def)

lemma arbitration_last_request:
  "last_request (fst (command_arbitration s i)) =
     (if mode (current_state s) \<noteq> ''OFFBOARD'' \<and> 5 < now_88 i - last_request s
      then now_93 i
      else if \<not> armed (current_state s) \<and> 5 < now_95 i - last_request s
      then now_99 i else last_request s)"
  by (simp add: command_arbitration_def Let_def)

lemma mission_phase_last_request: "last_request (fst (mission_phase s i)) = last_request s"
  by (simp add: mission_phase_def Let_def)

lemma iteration_last_request:
  "last_request (fst (iteration s i)) = last_request (fst (command_arbitration s i))"
  by (simp add: iteration_eq spinOnce_frame mission_phase_last_request)

lemma iteration_command_requests:
  "command_requests (snd (iteration s i)) = snd (command_arbitration s i)"
  by (simp add: iteration_eq command_requests_simps mission_phase_events publish_setpoint_def
      arbitration_events)

lemma iteration_offboard_request:
  "(SetModeCall ''OFFBOARD'' \<in> set (snd (iteration s i))) =
     (mode (current_state s) \<noteq> ''OFFBOARD'' \<and> 5 < now_88 i - last_request s)"
  by (simp add: iteration_eq mission_phase_events publish_setpoint_def arbitration_events)

lemma attempts_Cons:
  "attempts s (i # is) =
     (if command_requests (snd (iteration s i)) = [] then []
      else [(gate_reading (snd (iteration s i)) i, last_request (fst (iteration s i)))])
     @ attempts (fst (iteration s i)) is"
  by (simp add: Let_def split: prod.splits)

declare attempts.simps(2) [simp del]

lemma request_gate:
  "command_requests (snd (iteration s i)) \<noteq> [] \<Longrightarrow>
   5 < gate_reading (snd (iteration s i)) i - last_request s"
  by (auto simp: gate_reading_def iteration_offboard_request iteration_command_requests
      arbitration_events split: if_splits)

lemma no_request_keeps_timer:
  "command_requests (snd (iteration s i)) = [] \<Longrightarrow>
   last_request (fst (iteration s i)) = last_request s"
  by (auto simp: iteration_last_request arbitration_last_request iteration_command_requests
      arbitration_events split: if_splits)

lemma request_bracket:
  "clock_mono i \<Longrightarrow> command_requests (snd (iteration s i)) \<noteq> [] \<Longrightarrow>
   gate_reading (snd (iteration s i)) i \<le> last_request (fst (iteration s i))"
  by (auto simp: gate_reading_def iteration_offboard_request iteration_command_requests
      arbitration_events iteration_last_request arbitration_last_request clock_mono_def
      split: if_splits)

lemma spaced_attempts: "spaced (last_request s) (attempts s ins)"
proof (induction ins arbitrary: s)
  case Nil
  show ?case by simp
next
  case (Cons i ins)
  show ?case
  proof (cases "command_requests (snd (iteration s i)) = []")
    case True
    then show ?thesis
      using Cons.IH [of "fst (iteration s i)"]
      by (simp add: attempts_Cons no_request_keeps_timer)
  next
    case False
    then show ?thesis
      using Cons.IH [of "fst (iteration s i)"] request_gate [OF False]
      by (simp add: attempts_Cons)
  qed
qed

lemma attempts_bracketed:
  "list_all clock_mono ins \<Longrightarrow> list_all (\<lambda>(g, r). g \<le> r) (attempts s ins)"
  by (induction ins arbitrary: s) (simp_all add: attempts_Cons request_bracket)

lemma spaced_gates_apart:
  "spaced t xs \<Longrightarrow> list_all (\<lambda>(g, r). g \<le> r) xs \<Longrightarrow> gates_apart (map fst xs)"
proof (induction t xs rule: spaced.induct)
  case (1 t)
  show ?case by simp
next
  case (2 t g r xs)
  show ?case
  proof (cases xs)
    case Nil
    then show ?thesis by simp
  next
    case (Cons y ys)
    obtain h q where y: "y = (h, q)" by (cases y)
    from 2 have "gates_apart (map fst xs)" by simp
    moreover from 2 Cons y have "5 < h - r" "g \<le> r" by simp_all
    ultimately show ?thesis
      using Cons y by simp
  qed
qed

text \<open>
  Claim C5. The throttled requests of an iteration (the OFFBOARD mode request and
  the arming request of lines 88-101) are: the mode request alone when the mode is
  not \<^verbatim>\<open>"OFFBOARD"\<close> and the reading of line 88 is more than 5 s after
  \<^verbatim>\<open>last_request\<close>; otherwise the arming request alone when the vehicle is not armed
  and the reading of line 95 is more than 5 s after \<^verbatim>\<open>last_request\<close>; otherwise
  none. So there is at most one per iteration. Along every run, each request passes
  its gate more than 5 s after the clock reading stored when the previous request
  had returned, whatever its outcome (for the first request: after the reading of
  line 77); and when the clock does not run backwards within an iteration, the gate
  readings of successive requests are more than 5 s apart.
\<close>

theorem command_throttle:
  "command_requests (snd (iteration s i)) =
     (if mode (current_state s) \<noteq> ''OFFBOARD'' \<and> 5 < now_88 i - last_request s
      then [SetModeCall ''OFFBOARD'']
      else if \<not> armed (current_state s) \<and> 5 < now_95 i - last_request s
      then [ArmingCall True] else []) \<and>
   length (command_requests (snd (iteration s i))) \<le> 1 \<and>
   spaced (last_request s) (attempts s ins) \<and>
   (list_all clock_mono ins \<longrightarrow> gates_apart (map fst (attempts s ins)))"
  using spaced_attempts [of s ins] attempts_bracketed [of ins s]
  by (simp add: iteration_command_requests arbitration_events spaced_gates_apart)


theorem command_throttle_witness:
  "list_all clock_mono [turn 6 [standby True], turn 7 [], turn 12 []] \<and>
   command_requests (snd (iteration initial_state (turn 6 [standby True]))) =
     [SetModeCall ''OFFBOARD''] \<and>
   attempts initial_state [turn 6 [standby True], turn 7 [], turn 12 []] = [(6, 6), (12, 12)] \<and>
   spaced (last_request initial_state)
     (attempts initial_state [turn 6 [standby True], turn 7 [], turn 12 []]) \<and>
   gates_apart (map fst (attempts initial_state [turn 6 [standby True], turn 7 [], turn 12 []]))"
proof -
  have m: "list_all clock_mono [turn 6 [standby True], turn 7 [], turn 12 []]"
    by (simp add: clock_mono_def turn_simps)
  have s1: "iteration initial_state (turn 6 [standby True]) =
      (initial_state\<lparr>current_state := standby True, phase_start_time := 6, last_request := 6\<rparr>,
       [SetModeCall ''OFFBOARD'', Publish \<lparr>pos_x = 0, pos_y = 0, pos_z = TAKEOFF_Z\<rparr>])"
    by (simp add: iteration_eq command_arbitration_def mission_phase_def publish_setpoint_def
        spinOnce_eq initial_state_def turn_def phase_defs)
  have s2: "iteration
      (initial_state\<lparr>current_state := standby True, phase_start_time := 6, last_request := 6\<rparr>)
      (turn 7 []) =
      (initial_state\<lparr>current_state := standby True, phase_start_time := 6, last_request := 6\<rparr>,
       [Publish \<lparr>pos_x = 0, pos_y = 0, pos_z = TAKEOFF_Z\<rparr>])"
    by (simp add: iteration_eq command_arbitration_def mission_phase_def publish_setpoint_def
        spinOnce_eq initial_state_def turn_def phase_defs standby_def)
  have s3: "iteration
      (initial_state\<lparr>current_state := standby True, phase_start_time := 6, last_request := 6\<rparr>)
      (turn 12 []) =
      (initial_state\<lparr>current_state := standby True, phase_start_time := 6, last_request := 12\<rparr>,
       [ArmingCall True, Publish \<lparr>pos_x = 0, pos_y = 0, pos_z = TAKEOFF_Z\<rparr>])"
    by (simp add: iteration_eq command_arbitration_def mission_phase_def publish_setpoint_def
        spinOnce_eq initial_state_def turn_def phase_defs standby_def)
  have a: "attempts initial_state [turn 6 [standby True], turn 7 [], turn 12 []] =
      [(6, 6), (12, 12)]"
    by (simp add: attempts_Cons s1 s2 s3 command_requests_simps gate_reading_def turn_simps)
  show ?thesis
    using m a command_throttle [of initial_state "turn 6 [standby True]"
        "[turn 6 [standby True], turn 7 [], turn 12 []]"]
    by (simp add: s1 command_requests_simps)
qed

subsection \<open>Independence of the \<open>connected\<close> flag\<close>

lemma same_but_connected_iff:
  "same_but_connected a b = (armed b = armed a \<and> mode b = mode a)"
  by (cases a, cases b) (auto simp: same_but_connected_def)

lemma state_sim_iff:
  "state_sim s t =
     (armed (current_state t) = armed (current_state s) \<and>
      mode (current_state t) = mode (current_state s) \<and>
      t = s\<lparr>current_state := current_state t\<rparr>)"
  by (simp add: state_sim_def same_but_connected_iff)

lemma arbitration_sim:
  "armed c = armed (current_state s) \<Longrightarrow> mode c = mode (current_state s) \<Longrightarrow>
   command_arbitration (s\<lparr>current_state := c\<rparr>) (i\<lparr>state_msgs := ms\<rparr>) =
     ((fst (command_arbitration s i))\<lparr>current_state := c\<rparr>, snd (command_arbitration s i))"
  by (simp add: command_arbitration_def Let_def)

lemma mission_phase_sim:
  "armed c = armed (current_state s) \<Longrightarrow> mode c = mode (current_state s) \<Longrightarrow>
   mission_phase (s\<lparr>current_state := c\<rparr>) (i\<lparr>state_msgs := ms\<rparr>) =
     ((fst (mission_phase s i))\<lparr>current_state := c\<rparr>, snd (mission_phase s i))"
  by (simp add: mission_phase_def Let_def)

lemma publish_sim: "publish_setpoint (s\<lparr>current_state := c\<rparr>) = publish_setpoint s"
  by (simp add: publish_setpoint_def)

lemma mission_phase_state: "current_state (fst (mission_phase s i)) = current_state s"
  by (simp add: mission_phase_def Let_def)

lemma iteration_sim:
  assumes "armed c = armed (current_state s)" and "mode c = mode (current_state s)"
  shows "iteration (s\<lparr>current_state := c\<rparr>) (i\<lparr>state_msgs := ms\<rparr>) =
     ((fst (iteration s i))\<lparr>current_state := last (c # ms)\<rparr>, snd (iteration s i))"
proof -
  have a: "command_arbitration (s\<lparr>current_state := c\<rparr>) (i\<lparr>state_msgs := ms\<rparr>) =
      ((fst (command_arbitration s i))\<lparr>current_state := c\<rparr>, snd (command_arbitration s i))"
    using assms by (rule arbitration_sim)
  have m: "mission_phase ((fst (command_arbitration s i))\<lparr>current_state := c\<rparr>)
        (i\<lparr>state_msgs := ms\<rparr>) =
      ((fst (mission_phase (fst (command_arbitration s i)) i))\<lparr>current_state := c\<rparr>,
       snd (mission_phase (fst (command_arbitration s i)) i))"
    using assms by (intro mission_phase_sim) (simp_all add: arbitration_frame)
  show ?thesis
    by (simp add: iteration_eq a m publish_sim spinOnce_eq)
qed

lemma last_sim:
  "list_all2 P xs ys \<Longrightarrow> P a b \<Longrightarrow> P (last (a # xs)) (last (b # ys))"
  by (induction arbitrary: a b rule: list_all2_induct) simp_all

lemma iteration_state: 
  "current_state (fst (iteration s i)) = last (current_state s # state_msgs i)"
  by (simp add: iteration_eq spinOnce_eq mission_phase_state arbitration_frame)

lemma iteration_state_sim:
  assumes "state_sim s t" and "input_sim i j"
  shows "snd (iteration t j) = snd (iteration s i) \<and> state_sim (fst (iteration s i)) (fst (iteration t j))"
proof -
  from assms(1) have c: "armed (current_state t) = armed (current_state s)"
    "mode (current_state t) = mode (current_state s)"
    and t: "t = s\<lparr>current_state := current_state t\<rparr>"
    by (simp_all add: state_sim_iff)
  from assms(2) have l: "list_all2 same_but_connected (state_msgs i) (state_msgs j)"
    and j: "j = i\<lparr>state_msgs := state_msgs j\<rparr>"
    by (simp_all add: input_sim_def)
  have "iteration (s\<lparr>current_state := current_state t\<rparr>) (i\<lparr>state_msgs := state_msgs j\<rparr>) =
     ((fst (iteration s i))\<lparr>current_state := last (current_state t # state_msgs j)\<rparr>,
      snd (iteration s i))"
    using c by (rule iteration_sim)
  then have e: "iteration t j =
     ((fst (iteration s i))\<lparr>current_state := last (current_state t # state_msgs j)\<rparr>,
      snd (iteration s i))"
    using t j by simp
  have "same_but_connected (current_state s) (current_state t)"
    using c by (simp add: same_but_connected_iff)
  then have "same_but_connected (last (current_state s # state_msgs i))
      (last (current_state t # state_msgs j))"
    by (rule last_sim [OF l])
  then show ?thesis
    by (simp add: e state_sim_def iteration_state)
qed

lemma state_sim_phase:
  assumes "state_sim s t"
  shows "current_phase t = current_phase s"
proof -
  from assms have e: "t = s\<lparr>current_state := current_state t\<rparr>"
    by (simp add: state_sim_def)
  have "current_phase t = current_phase (s\<lparr>current_state := current_state t\<rparr>)"
    by (rule arg_cong [OF e])
  then show ?thesis
    by simp
qed

text \<open>
  Claim C8. Two runs of the control loop that start in states differing at most in
  the \<^verbatim>\<open>connected\<close> flag of \<^verbatim>\<open>current_state\<close>, on inputs differing at most in the
  \<^verbatim>\<open>connected\<close> flag of the delivered state messages, make the same service calls
  and publications in every iteration, go through the same phases, and end in
  states that again differ at most in that flag.
\<close>

theorem connected_not_read:
  assumes "state_sim s t" and "list_all2 input_sim ins ins'"
  shows "snd (main_loop t ins') = snd (main_loop s ins) \<and>
         state_sim (fst (main_loop s ins)) (fst (main_loop t ins')) \<and>
         phase_trace t ins' = phase_trace s ins"
  using assms(2,1)
proof (induction arbitrary: s t rule: list_all2_induct)
  case Nil
  then show ?case
    by (simp add: state_sim_phase)
next
  case (Cons i ins j ins')
  have st: "snd (iteration t j) = snd (iteration s i)"
    and sm: "state_sim (fst (iteration s i)) (fst (iteration t j))"
    using iteration_state_sim [OF Cons.prems Cons.hyps(1)] by simp_all
  have "current_phase t = current_phase s"
    using Cons.prems by (rule state_sim_phase)
  then show ?case
    using Cons.IH [OF sm] st by (simp add: main_loop_Cons)
qed


theorem connected_not_read_witness:
  "state_sim (in_phase PHASE_TAKEOFF 0 (flying True)) (in_phase PHASE_TAKEOFF 0 (flying False)) \<and>
   list_all2 input_sim [turn 20 [flying True], turn 100 [standby True]]
     [turn 20 [flying False], turn 100 [standby False]] \<and>
   snd (main_loop (in_phase PHASE_TAKEOFF 0 (flying False))
          [turn 20 [flying False], turn 100 [standby False]]) =
   snd (main_loop (in_phase PHASE_TAKEOFF 0 (flying True))
          [turn 20 [flying True], turn 100 [standby True]]) \<and>
   phase_trace (in_phase PHASE_TAKEOFF 0 (flying False))
     [turn 20 [flying False], turn 100 [standby False]] =
   phase_trace (in_phase PHASE_TAKEOFF 0 (flying True))
     [turn 20 [flying True], turn 100 [standby True]]"
proof -
  have h1: "state_sim (in_phase PHASE_TAKEOFF 0 (flying True))
      (in_phase PHASE_TAKEOFF 0 (flying False))"
    by (simp add: state_sim_iff in_phase_def flying_def)
  have h2: "list_all2 input_sim [turn 20 [flying True], turn 100 [standby True]]
      [turn 20 [flying False], turn 100 [standby False]]"
    by (simp add: input_sim_def same_but_connected_iff turn_def flying_def standby_def)
  show ?thesis
    using h1 h2 connected_not_read [OF h1 h2] by simp
qed

end
